theory Spec2Isabelle
  imports Main "HOL-Library.Word"
begin

section \<open>JavaScript strings and JSON values\<close>

text \<open>
  A JavaScript string is a sequence of UTF-16 code units. Source literals are written
  with \<open>str\<close>, which maps each character of the literal to its code unit.
\<close>

type_synonym js_string = "16 word list"

definition str :: "string \<Rightarrow> js_string" where
  "str s = map of_char s"

text \<open>
  The exceptions met: the SyntaxError of \<open>JSON.parse\<close>, a TypeError, and the plain
  \<open>Error\<close> React throws for an invalid child.
\<close>

datatype js_error = SyntaxError | TypeError | Error

text \<open>
  Object literals and parsed JSON texts are values of \<open>json\<close>. An object is the list of
  its own properties in creation order. A number keeps the text of its literal: the
  component never computes with numbers.
\<close>

datatype json =
    JNull
  | JBool bool
  | JNumber js_string
  | JString js_string
  | JArray "json list"
  | JObject "(js_string \<times> json) list"

text \<open>
  \<open>String.prototype.trim\<close>: strips the code units of the ECMAScript productions
  WhiteSpace (TAB, VT, FF, SP, NBSP, ZWNBSP and the category Zs) and LineTerminator
  (LF, CR, LS, PS) from both ends.
\<close>

definition isWhiteSpace :: "16 word \<Rightarrow> bool" where
  "isWhiteSpace c \<longleftrightarrow>
     c = 0x0009 \<or> c = 0x000A \<or> c = 0x000B \<or> c = 0x000C \<or> c = 0x000D \<or>
     c = 0x0020 \<or> c = 0x00A0 \<or> c = 0x1680 \<or> (0x2000 \<le> c \<and> c \<le> 0x200A) \<or>
     c = 0x2028 \<or> c = 0x2029 \<or> c = 0x202F \<or> c = 0x205F \<or> c = 0x3000 \<or>
     c = 0xFEFF"

definition trim :: "js_string \<Rightarrow> js_string" where
  "trim s = rev (dropWhile isWhiteSpace (rev (dropWhile isWhiteSpace s)))"

section \<open>JSON.parse\<close>

text \<open>
  \<open>JSON.parse\<close> is the platform's (ECMA-262, 25.5.1; grammar of ECMA-404). It is
  embedded as a lexer followed by a pushdown recogniser that builds the value. A text
  that is not a single JSON value makes \<open>JSON.parse\<close> throw a SyntaxError.
\<close>

datatype token =
    LBrace | RBrace | LBracket | RBracket | Colon | Comma
  | TString js_string | TNumber js_string | TTrue | TFalse | TNull

definition isJsonWs :: "16 word \<Rightarrow> bool" where
  "isJsonWs c \<longleftrightarrow> c = 0x09 \<or> c = 0x0A \<or> c = 0x0D \<or> c = 0x20"

definition isDigit :: "16 word \<Rightarrow> bool" where
  "isDigit c \<longleftrightarrow> 0x30 \<le> c \<and> c \<le> 0x39"

definition hexValue :: "16 word \<Rightarrow> 16 word option" where
  "hexValue c =
     (if 0x30 \<le> c \<and> c \<le> 0x39 then Some (c - 0x30)
      else if 0x41 \<le> c \<and> c \<le> 0x46 then Some (c - 0x37)
      else if 0x61 \<le> c \<and> c \<le> 0x66 then Some (c - 0x57)
      else None)"

text \<open>The single-character escapes: quote, backslash, slash, b, f, n, r, t.\<close>

definition unescape :: "16 word \<Rightarrow> 16 word option" where
  "unescape e =
     (if e = 0x22 then Some 0x22
      else if e = 0x5C then Some 0x5C
      else if e = 0x2F then Some 0x2F
      else if e = 0x62 then Some 0x08
      else if e = 0x66 then Some 0x0C
      else if e = 0x6E then Some 0x0A
      else if e = 0x72 then Some 0x0D
      else if e = 0x74 then Some 0x09
      else None)"

definition hex4 :: "16 word \<Rightarrow> 16 word \<Rightarrow> 16 word \<Rightarrow> 16 word \<Rightarrow> 16 word option" where
  "hex4 a b c d =
     (case (hexValue a, hexValue b, hexValue c, hexValue d) of
        (Some x, Some y, Some z, Some u) \<Rightarrow> Some (((x * 16 + y) * 16 + z) * 16 + u)
      | _ \<Rightarrow> None)"

text \<open>
  \<open>lex_string acc s\<close> reads a string literal whose opening quote has been consumed;
  \<open>acc\<close> holds the code units read so far, newest first. It returns the string and the
  rest of the input after the closing quote.
\<close>

fun lex_string :: "js_string \<Rightarrow> js_string \<Rightarrow> (js_string \<times> js_string) option" where
  "lex_string acc [] = None"
| "lex_string acc (c # cs) =
     (if c = 0x22 then Some (rev acc, cs)
      else if c = 0x5C then
        (case cs of
           [] \<Rightarrow> None
         | e # r \<Rightarrow>
             if e = 0x75 then
               (case r of
                  h1 # h2 # h3 # h4 # r' \<Rightarrow>
                    (case hex4 h1 h2 h3 h4 of
                       None \<Rightarrow> None
                     | Some u \<Rightarrow> lex_string (u # acc) r')
                | _ \<Rightarrow> None)
             else
               (case unescape e of
                  None \<Rightarrow> None
                | Some x \<Rightarrow> lex_string (x # acc) r))
      else if c < 0x20 then None
      else lex_string (c # acc) cs)"

text \<open>Numbers: \<open>-? (0 | [1-9][0-9]*) (. [0-9]+)? ([eE] [+-]? [0-9]+)?\<close>.\<close>

definition lex_digits :: "js_string \<Rightarrow> js_string option" where
  "lex_digits s =
     (case s of
        [] \<Rightarrow> None
      | c # cs \<Rightarrow> if isDigit c then Some (dropWhile isDigit cs) else None)"

definition lex_int :: "js_string \<Rightarrow> js_string option" where
  "lex_int s =
     (case s of
        [] \<Rightarrow> None
      | c # cs \<Rightarrow>
          if c = 0x30 then Some cs
          else if isDigit c then Some (dropWhile isDigit cs)
          else None)"

definition lex_frac :: "js_string \<Rightarrow> js_string option" where
  "lex_frac s =
     (case s of
        [] \<Rightarrow> Some s
      | c # cs \<Rightarrow> if c = 0x2E then lex_digits cs else Some s)"

definition lex_exp :: "js_string \<Rightarrow> js_string option" where
  "lex_exp s =
     (case s of
        [] \<Rightarrow> Some s
      | c # cs \<Rightarrow>
          if c = 0x65 \<or> c = 0x45 then
            (case cs of
               [] \<Rightarrow> None
             | d # ds \<Rightarrow> if d = 0x2B \<or> d = 0x2D then lex_digits ds else lex_digits cs)
          else Some s)"

definition lex_number :: "js_string \<Rightarrow> (js_string \<times> js_string) option" where
  "lex_number s =
     (let s1 = (case s of [] \<Rightarrow> s | c # cs \<Rightarrow> if c = 0x2D then cs else s) in
      case lex_int s1 of
        None \<Rightarrow> None
      | Some r1 \<Rightarrow>
          (case lex_frac r1 of
             None \<Rightarrow> None
           | Some r2 \<Rightarrow>
               (case lex_exp r2 of
                  None \<Rightarrow> None
                | Some r3 \<Rightarrow> Some (take (length s - length r3) s, r3))))"

lemma lex_string_step:
  assumes "lex_string acc (c # cs) = Some (t, r)"
  shows "r = cs \<or> (\<exists>acc' s'. length s' \<le> length cs \<and> lex_string acc' s' = Some (t, r))"
proof (cases "c = 0x22")
  case True
  with assms show ?thesis by simp
next
  case nq: False
  show ?thesis
  proof (cases "c = 0x5C")
    case False
    with nq assms have "lex_string (c # acc) cs = Some (t, r)"
      by (simp split: if_splits)
    then show ?thesis by blast
  next
    case True
    with nq assms obtain e r0 where cs: "cs = e # r0"
      by (cases cs) auto
    show ?thesis
    proof (cases "e = 0x75")
      case False
      with nq True assms cs obtain x where "lex_string (x # acc) r0 = Some (t, r)"
        by (auto split: option.splits)
      moreover have "length r0 \<le> length cs" using cs by simp
      ultimately show ?thesis by blast
    next
      case u: True
      with nq True assms cs obtain h1 h2 h3 h4 r' where r0: "r0 = h1 # h2 # h3 # h4 # r'"
        by (auto split: list.splits)
      with nq True assms cs u obtain x where "lex_string (x # acc) r' = Some (t, r)"
        by (auto split: option.splits)
      moreover have "length r' \<le> length cs" using cs r0 by simp
      ultimately show ?thesis by blast
    qed
  qed
qed

lemma lex_string_length:
  "lex_string acc s = Some (t, r) \<Longrightarrow> length r < length s"
proof (induction "length s" arbitrary: acc s rule: less_induct)
  case less
  show ?case
  proof (cases s)
    case Nil
    with less.prems show ?thesis by simp
  next
    case (Cons c cs)
    with less.prems lex_string_step [of acc c cs t r]
    consider "r = cs" | acc' s' where "length s' \<le> length cs" "lex_string acc' s' = Some (t, r)"
      by blast
    then show ?thesis
    proof cases
      case 1
      with Cons show ?thesis by simp
    next
      case 2
      from 2(1) Cons have "length s' < length s" by simp
      from less.hyps [OF this 2(2)] 2(1) Cons show ?thesis by simp
    qed
  qed
qed

lemma lex_digits_length: "lex_digits s = Some r \<Longrightarrow> length r < length s"
  by (auto simp: lex_digits_def less_Suc_eq_le length_dropWhile_le split: list.splits if_splits)

lemma lex_int_length: "lex_int s = Some r \<Longrightarrow> length r < length s"
  by (auto simp: lex_int_def less_Suc_eq_le length_dropWhile_le split: list.splits if_splits)

lemma lex_frac_length: "lex_frac s = Some r \<Longrightarrow> length r \<le> length s"
  by (auto simp: lex_frac_def split: list.splits if_splits dest!: lex_digits_length)

lemma lex_exp_length: "lex_exp s = Some r \<Longrightarrow> length r \<le> length s"
  by (auto simp: lex_exp_def split: list.splits if_splits dest!: lex_digits_length)

lemma lex_number_length:
  assumes "lex_number s = Some (n, r)"
  shows "length r < length s"
proof -
  let ?s1 = "case s of [] \<Rightarrow> s | c # cs \<Rightarrow> if c = 0x2D then cs else s"
  from assms obtain r1 r2 where
    a: "lex_int ?s1 = Some r1" and b: "lex_frac r1 = Some r2" and c: "lex_exp r2 = Some r"
    by (auto simp: lex_number_def Let_def split: option.splits)
  have "length ?s1 \<le> length s"
    by (simp split: list.splits)
  with lex_int_length [OF a] lex_frac_length [OF b] lex_exp_length [OF c]
  show ?thesis by linarith
qed

function lex :: "js_string \<Rightarrow> token list option" where
  "lex [] = Some []"
| "lex (c # cs) =
     (if isJsonWs c then lex cs
      else if c = 0x7B then map_option (Cons LBrace) (lex cs)
      else if c = 0x7D then map_option (Cons RBrace) (lex cs)
      else if c = 0x5B then map_option (Cons LBracket) (lex cs)
      else if c = 0x5D then map_option (Cons RBracket) (lex cs)
      else if c = 0x3A then map_option (Cons Colon) (lex cs)
      else if c = 0x2C then map_option (Cons Comma) (lex cs)
      else if c = 0x22 then
        (case lex_string [] cs of
           None \<Rightarrow> None
         | Some (s, r) \<Rightarrow> map_option (Cons (TString s)) (lex r))
      else if c = 0x2D \<or> isDigit c then
        (case lex_number (c # cs) of
           None \<Rightarrow> None
         | Some (n, r) \<Rightarrow> map_option (Cons (TNumber n)) (lex r))
      else if take 4 (c # cs) = str ''true'' then map_option (Cons TTrue) (lex (drop 3 cs))
      else if take 5 (c # cs) = str ''false'' then map_option (Cons TFalse) (lex (drop 4 cs))
      else if take 4 (c # cs) = str ''null'' then map_option (Cons TNull) (lex (drop 3 cs))
      else None)"
  by pat_completeness auto
termination
proof (relation "measure length")
  show "wf (measure length)" by simp
qed (auto dest!: lex_string_length lex_number_length)

text \<open>
  The recogniser keeps a stack of the containers being read: an array with the
  elements read so far, or an object with the members read so far and the key whose
  value is being read. \<open>expect\<close> says which tokens may come next.
\<close>

datatype frame =
    FArray "json list"
  | FObject "(js_string \<times> json) list" js_string

datatype expect =
    ExpValue | ExpValueOrEnd | ExpKeyOrEnd | ExpKey | ExpColon | ExpCommaOrEnd
  | Done json

text \<open>
  A member whose key is already present replaces the earlier value and keeps its
  place (CreateDataProperty on an existing key).
\<close>

fun put_member :: "js_string \<Rightarrow> json \<Rightarrow> (js_string \<times> json) list \<Rightarrow> (js_string \<times> json) list" where
  "put_member k v [] = [(k, v)]"
| "put_member k v ((k', v') # ms) =
     (if k' = k then (k, v) # ms else (k', v') # put_member k v ms)"

definition push_value :: "json \<Rightarrow> frame list \<Rightarrow> expect \<times> frame list" where
  "push_value v st =
     (case st of
        [] \<Rightarrow> (Done v, [])
      | FArray vs # rest \<Rightarrow> (ExpCommaOrEnd, FArray (vs @ [v]) # rest)
      | FObject ms k # rest \<Rightarrow> (ExpCommaOrEnd, FObject (put_member k v ms) k # rest))"

definition value_expected :: "expect \<Rightarrow> bool" where
  "value_expected e = (case e of ExpValue \<Rightarrow> True | ExpValueOrEnd \<Rightarrow> True | _ \<Rightarrow> False)"

definition key_expected :: "expect \<Rightarrow> bool" where
  "key_expected e = (case e of ExpKey \<Rightarrow> True | ExpKeyOrEnd \<Rightarrow> True | _ \<Rightarrow> False)"

definition array_end_expected :: "expect \<Rightarrow> bool" where
  "array_end_expected e = (case e of ExpCommaOrEnd \<Rightarrow> True | ExpValueOrEnd \<Rightarrow> True | _ \<Rightarrow> False)"

definition object_end_expected :: "expect \<Rightarrow> bool" where
  "object_end_expected e = (case e of ExpCommaOrEnd \<Rightarrow> True | ExpKeyOrEnd \<Rightarrow> True | _ \<Rightarrow> False)"

definition comma_expected :: "expect \<Rightarrow> bool" where
  "comma_expected e = (case e of ExpCommaOrEnd \<Rightarrow> True | _ \<Rightarrow> False)"

definition colon_expected :: "expect \<Rightarrow> bool" where
  "colon_expected e = (case e of ExpColon \<Rightarrow> True | _ \<Rightarrow> False)"

definition scalar :: "json \<Rightarrow> expect \<Rightarrow> frame list \<Rightarrow> (expect \<times> frame list) option" where
  "scalar v e st = (if value_expected e then Some (push_value v st) else None)"

definition parse_step :: "token \<Rightarrow> expect \<times> frame list \<Rightarrow> (expect \<times> frame list) option" where
  "parse_step t s =
     (case s of (e, st) \<Rightarrow>
        (case t of
           LBracket \<Rightarrow> if value_expected e then Some (ExpValueOrEnd, FArray [] # st) else None
         | LBrace \<Rightarrow> if value_expected e then Some (ExpKeyOrEnd, FObject [] [] # st) else None
         | TString x \<Rightarrow>
             if key_expected e then
               (case st of
                  FObject ms k # rest \<Rightarrow> Some (ExpColon, FObject ms x # rest)
                | _ \<Rightarrow> None)
             else scalar (JString x) e st
         | TNumber n \<Rightarrow> scalar (JNumber n) e st
         | TTrue \<Rightarrow> scalar (JBool True) e st
         | TFalse \<Rightarrow> scalar (JBool False) e st
         | TNull \<Rightarrow> scalar JNull e st
         | Colon \<Rightarrow> if colon_expected e then Some (ExpValue, st) else None
         | Comma \<Rightarrow>
             if comma_expected e then
               (case st of
                  [] \<Rightarrow> None
                | FArray vs # rest \<Rightarrow> Some (ExpValue, st)
                | FObject ms k # rest \<Rightarrow> Some (ExpKey, st))
             else None
         | RBracket \<Rightarrow>
             if array_end_expected e then
               (case st of
                  FArray vs # rest \<Rightarrow> Some (push_value (JArray vs) rest)
                | _ \<Rightarrow> None)
             else None
         | RBrace \<Rightarrow>
             if object_end_expected e then
               (case st of
                  FObject ms k # rest \<Rightarrow> Some (push_value (JObject ms) rest)
                | _ \<Rightarrow> None)
             else None))"

fun parse_tokens :: "token list \<Rightarrow> expect \<times> frame list \<Rightarrow> (expect \<times> frame list) option" where
  "parse_tokens [] s = Some s"
| "parse_tokens (t # ts) s =
     (case parse_step t s of
        None \<Rightarrow> None
      | Some s' \<Rightarrow> parse_tokens ts s')"

definition JSON_parse :: "js_string \<Rightarrow> js_error + json" where
  "JSON_parse text =
     (case lex text of
        None \<Rightarrow> Inl SyntaxError
      | Some ts \<Rightarrow>
          (case parse_tokens ts (ExpValue, []) of
             Some (Done v, st) \<Rightarrow> Inr v
           | _ \<Rightarrow> Inl SyntaxError))"

section \<open>The session configuration: constants of ToolPanel.jsx\<close>

definition functionDescription :: js_string where
  "functionDescription =
     str ''\<newline>Call this function when a user asks for a color palette.\<newline>''"

definition DEFAULT_INSTRUCTIONS :: js_string where
  "DEFAULT_INSTRUCTIONS =
     str ''You are a collaborative design partner. Offer concise, practical suggestions grounded in the latest design, accessibility, and branding best practices. Encourage follow-up questions and never invent color values that were not provided.''"

record voice_option =
  label :: js_string
  "value" :: js_string

definition VOICE_OPTIONS :: "voice_option list" where
  "VOICE_OPTIONS =
     [\<lparr>label = str ''Marin (friendly)'', value = str ''marin''\<rparr>,
      \<lparr>label = str ''Alloy (balanced)'', value = str ''alloy''\<rparr>,
      \<lparr>label = str ''Sol (energetic)'', value = str ''sol''\<rparr>,
      \<lparr>label = str ''Verse (narrative)'', value = str ''verse''\<rparr>]"

definition sessionUpdate :: json where
  "sessionUpdate =
     JObject
      [(str ''type'', JString (str ''session.update'')),
       (str ''session'',
        JObject
         [(str ''type'', JString (str ''realtime'')),
          (str ''tools'',
           JArray
            [JObject
              [(str ''type'', JString (str ''function'')),
               (str ''name'', JString (str ''display_color_palette'')),
               (str ''description'', JString functionDescription),
               (str ''parameters'',
                JObject
                 [(str ''type'', JString (str ''object'')),
                  (str ''strict'', JBool True),
                  (str ''properties'',
                   JObject
                    [(str ''theme'',
                      JObject
                       [(str ''type'', JString (str ''string'')),
                        (str ''description'',
                         JString (str ''Description of the theme for the color scheme.''))]),
                     (str ''colors'',
                      JObject
                       [(str ''type'', JString (str ''array'')),
                        (str ''description'',
                         JString (str ''Array of five hex color codes based on the theme.'')),
                        (str ''items'',
                         JObject
                          [(str ''type'', JString (str ''string'')),
                           (str ''description'', JString (str ''Hex color code''))])])]),
                  (str ''required'',
                   JArray [JString (str ''theme''), JString (str ''colors'')])])]]),
          (str ''tool_choice'', JString (str ''auto''))])]"

section \<open>Events, component state and the environment\<close>

text \<open>
  The entries of \<open>response.output\<close> and the events of the log, with the fields the
  component reads; \<open>otype\<close> and \<open>etype\<close> are their \<open>type\<close> fields. A field that an
  entry or event does not carry (\<open>undefined\<close>) is \<open>None\<close>.
\<close>

record output_item =
  otype :: js_string
  name :: "js_string option"
  arguments :: "js_string option"

record response_body =
  "output" :: "output_item list option"

record event =
  etype :: js_string
  response :: "response_body option"

text \<open>The five \<open>useState\<close> cells of ToolPanel, and the calls of their setters.\<close>

record panel =
  functionAdded :: bool
  functionCallOutput :: "output_item option"
  instructions :: js_string
  voice :: js_string
  lastSessionUpdate :: "js_string option"

datatype setter =
    SetFunctionAdded bool
  | SetFunctionCallOutput "output_item option"
  | SetInstructions js_string
  | SetVoice js_string
  | SetLastSessionUpdate "js_string option"

fun apply_setter :: "setter \<Rightarrow> panel \<Rightarrow> panel" where
  "apply_setter (SetFunctionAdded b) p = p\<lparr>functionAdded := b\<rparr>"
| "apply_setter (SetFunctionCallOutput x) p = p\<lparr>functionCallOutput := x\<rparr>"
| "apply_setter (SetInstructions s) p = p\<lparr>instructions := s\<rparr>"
| "apply_setter (SetVoice v) p = p\<lparr>voice := v\<rparr>"
| "apply_setter (SetLastSessionUpdate t) p = p\<lparr>lastSessionUpdate := t\<rparr>"

text \<open>
  A handler or effect reads the state of the render it belongs to and calls setters;
  React applies the calls, in order, for the next render.
\<close>

definition apply_setters :: "setter list \<Rightarrow> panel \<Rightarrow> panel" where
  "apply_setters ups p = fold apply_setter ups p"

definition initial_panel :: panel where
  "initial_panel =
     \<lparr>functionAdded = False, functionCallOutput = None,
      instructions = DEFAULT_INSTRUCTIONS, voice = value (VOICE_OPTIONS ! 0),
      lastSessionUpdate = None\<rparr>"

text \<open>
  The environment of the component: the commands handed to \<open>sendClientEvent\<close> so
  far (oldest first), the pending timeouts of \<open>window\<close> in the order they were armed,
  and the handle the next \<open>setTimeout\<close> returns. A timeout's callback is recorded as
  the command it passes to \<open>sendClientEvent\<close>; \<open>delay\<close> is in milliseconds.
\<close>

record timer =
  handle :: nat
  delay :: nat
  callback :: json

record world =
  sent :: "json list"
  timers :: "timer list"
  nextHandle :: nat

text \<open>
  Modelled from the spec: \<open>sendClientEvent\<close> is a prop, a function of the parent
  component that is not part of ToolPanel.jsx. The spec calls it the outbound command
  channel: each call emits one command.
\<close>

definition sendClientEvent :: "json \<Rightarrow> world \<Rightarrow> world" where
  "sendClientEvent command w = w\<lparr>sent := sent w @ [command]\<rparr>"

text \<open>
  \<open>window.setTimeout\<close> and \<open>clearTimeout\<close> (HTML, timers): a handle is a positive
  integer; clearing a handle that is not pending does nothing. \<open>fireTimer h\<close> is the
  expiry of the pending timeout \<open>h\<close>: it leaves the pending list and its callback runs.
\<close>

definition setTimeout :: "json \<Rightarrow> nat \<Rightarrow> world \<Rightarrow> nat \<times> world" where
  "setTimeout cb ms w =
     (nextHandle w,
      w\<lparr>timers := timers w @ [\<lparr>handle = nextHandle w, delay = ms, callback = cb\<rparr>],
        nextHandle := nextHandle w + 1\<rparr>)"

definition clearTimeout :: "nat \<Rightarrow> world \<Rightarrow> world" where
  "clearTimeout h w = w\<lparr>timers := filter (\<lambda>t. handle t \<noteq> h) (timers w)\<rparr>"

definition fireTimer :: "nat \<Rightarrow> world \<Rightarrow> world" where
  "fireTimer h w =
     (case find (\<lambda>t. handle t = h) (timers w) of
        None \<Rightarrow> w
      | Some t \<Rightarrow> sendClientEvent (callback t) (clearTimeout h w))"

section \<open>FunctionCallOutput and the tool area of ToolPanel\<close>

text \<open>
  Property lookup on a parsed value, for the keys \<open>theme\<close> and \<open>colors\<close>: an object
  has the property if it has the member; numbers, booleans, strings and arrays have no
  property of either name, so the lookup gives \<open>undefined\<close> (\<open>None\<close>). On \<open>null\<close> the
  destructuring throws before any lookup.
\<close>

definition property :: "json \<Rightarrow> js_string \<Rightarrow> json option" where
  "property v k = (case v of JObject ms \<Rightarrow> map_of ms k | _ \<Rightarrow> None)"

text \<open>\<open>JSON.parse\<close> applies ToString to its argument: \<open>undefined\<close> becomes the text "undefined".\<close>

definition ToString :: "js_string option \<Rightarrow> js_string" where
  "ToString x = (case x of None \<Rightarrow> str ''undefined'' | Some s \<Rightarrow> s)"

text \<open>
  What FunctionCallOutput returns: the theme line, one box per element of \<open>colors\<close> in
  order (each showing the element), and the \<open>pre\<close> block showing the stored entry.
\<close>

record palette_view =
  theme :: "json option"
  colorBoxes :: "json list"
  pre :: output_item

text \<open>
  \<open>key={color}\<close>: creating the element turns the key into a string (\<open>'' + key\<close>). For
  a parsed value this throws a TypeError exactly when the conversion meets an object
  with a member \<open>toString\<close>: the member is not callable, and \<open>valueOf\<close> gives no
  primitive. An array is joined, so its elements are converted in turn (\<open>null\<close>
  gives the empty string).
\<close>

fun coercible :: "json \<Rightarrow> bool" where
  "coercible (JObject ms) = (map_of ms (str ''toString'') = None)"
| "coercible (JArray vs) = list_all coercible vs"
| "coercible v = True"

text \<open>
  FunctionCallOutput (lines 50-74), applied to its prop \<open>functionCallOutput\<close>. There
  is no \<open>try\<close>: an exception of \<open>JSON.parse\<close>, of the destructuring, of
  \<open>colors.map\<close> or of the key conversion in its callback leaves the function.
  \<open>colors.map\<close> is callable only when \<open>colors\<close> is an array.
\<close>

definition FunctionCallOutput :: "output_item \<Rightarrow> js_error + palette_view" where
  "FunctionCallOutput item =
     (case JSON_parse (ToString (arguments item)) of
        Inl e \<Rightarrow> Inl e
      | Inr parsed \<Rightarrow>
          (case parsed of
             JNull \<Rightarrow> Inl TypeError
           | _ \<Rightarrow>
               (case property parsed (str ''colors'') of
                  Some (JArray colors) \<Rightarrow>
                    if list_all coercible colors then
                      Inr \<lparr>theme = property parsed (str ''theme''), colorBoxes = colors,
                           pre = item\<rparr>
                    else Inl TypeError
                | _ \<Rightarrow> Inl TypeError)))"

text \<open>
  What React accepts as a child (\<open>{theme}\<close>, \<open>{color}\<close>): strings and numbers are
  text, booleans, \<open>null\<close> and \<open>undefined\<close> show nothing, an array is the list of its
  items; for a plain object React throws "Objects are not valid as a React child".
\<close>

fun validChild :: "json \<Rightarrow> bool" where
  "validChild (JObject ms) = False"
| "validChild (JArray vs) = list_all validChild vs"
| "validChild v = True"

definition validChildren :: "palette_view \<Rightarrow> bool" where
  "validChildren v \<longleftrightarrow>
     (case theme v of None \<Rightarrow> True | Some t \<Rightarrow> validChild t) \<and>
     list_all validChild (colorBoxes v)"

text \<open>
  The tool area of ToolPanel's render (lines 217-223), with the rendering of what
  FunctionCallOutput returned. An exception here is not caught anywhere.
\<close>

datatype tool_view = StartPrompt | AskPrompt | Palette palette_view

definition ToolPanel_render :: "bool \<Rightarrow> panel \<Rightarrow> js_error + tool_view" where
  "ToolPanel_render isSessionActive p =
     (if isSessionActive then
        (case functionCallOutput p of
           Some f \<Rightarrow>
             (case FunctionCallOutput f of
                Inl e \<Rightarrow> Inl e
              | Inr v \<Rightarrow> if validChildren v then Inr (Palette v) else Inl Error)
         | None \<Rightarrow> Inr AskPrompt)
      else Inr StartPrompt)"

section \<open>The handlers and effects of ToolPanel\<close>

text \<open>
  handleSessionUpdateSubmit (lines 87-104). \<open>now\<close> is the value of
  \<open>new Date().toLocaleTimeString()\<close> at the call. The empty string is falsy, so
  \<open>trimmedInstructions || DEFAULT_INSTRUCTIONS\<close> is the default exactly when the
  trimmed text is empty. \<open>event.preventDefault()\<close> concerns the form only; it touches
  neither the state nor the environment.
\<close>

definition handleSessionUpdateSubmit ::
    "bool \<Rightarrow> js_string \<Rightarrow> panel \<Rightarrow> world \<Rightarrow> setter list \<times> world" where
  "handleSessionUpdateSubmit isSessionActive now p w =
     (if \<not> isSessionActive then ([], w)
      else
        let trimmedInstructions = trim (instructions p) in
        ([SetLastSessionUpdate (Some now)],
         sendClientEvent
           (JObject
             [(str ''type'', JString (str ''session.update'')),
              (str ''session'',
               JObject
                [(str ''instructions'',
                  JString (if trimmedInstructions = [] then DEFAULT_INSTRUCTIONS
                           else trimmedInstructions)),
                 (str ''audio'',
                  JObject [(str ''output'', JObject [(str ''voice'', JString (voice p))])])])])
           w))"

text \<open>The command the timeout's callback sends (lines 128-136).\<close>

definition followupCommand :: json where
  "followupCommand =
     JObject
      [(str ''type'', JString (str ''response.create'')),
       (str ''response'',
        JObject
         [(str ''instructions'',
           JString (str ''\<newline>                ask for feedback about the color palette - don't repeat\<newline>                the colors, just ask if they like the colors.\<newline>              ''))])]"

definition isPaletteCall :: "output_item \<Rightarrow> bool" where
  "isPaletteCall out \<longleftrightarrow>
     otype out = str ''function_call'' \<and> name out = Some (str ''display_color_palette'')"

text \<open>
  The body of the \<open>forEach\<close> callback (lines 121-139), on the setter calls made so
  far, the environment and the variable \<open>timeoutId\<close>.
\<close>

fun forEachStep ::
    "output_item \<Rightarrow> setter list \<times> world \<times> nat option \<Rightarrow> setter list \<times> world \<times> nat option" where
  "forEachStep out (ups, w, timeoutId) =
     (if isPaletteCall out then
        (case setTimeout followupCommand 500 w of
           (h, w') \<Rightarrow> (ups @ [SetFunctionCallOutput (Some out)], w', Some h))
      else (ups, w, timeoutId))"

text \<open>
  The events effect (lines 106-141): its setter calls, the environment afterwards and
  the \<open>timeoutId\<close> its cleanup closes over (\<open>None\<close>: \<open>undefined\<close>, also when the effect
  returns no cleanup). \<open>events\<close> is \<open>None\<close> for \<open>null\<close> or \<open>undefined\<close>. Reading
  \<open>response.output\<close> of a \<open>response.done\<close> event without \<open>response\<close> throws; the
  result is then the exception alone. \<open>output\<close> is \<open>None\<close> when it is \<open>null\<close> or
  \<open>undefined\<close>; an array, also an empty one, is truthy.
\<close>

definition eventsEffect ::
    "event list option \<Rightarrow> panel \<Rightarrow> world \<Rightarrow> js_error + setter list \<times> world \<times> nat option" where
  "eventsEffect events p w =
     (case events of
        None \<Rightarrow> Inr ([], w, None)
      | Some evs \<Rightarrow>
          if length evs = 0 then Inr ([], w, None)
          else
            let firstEvent = evs ! (length evs - 1);
                init =
                  (if \<not> functionAdded p \<and> etype firstEvent = str ''session.created''
                   then ([SetFunctionAdded True], sendClientEvent sessionUpdate w, None)
                   else ([], w, None));
                mostRecentEvent = evs ! 0
            in
              if etype mostRecentEvent = str ''response.done'' then
                (case response mostRecentEvent of
                   None \<Rightarrow> Inl TypeError
                 | Some r \<Rightarrow>
                     (case output r of
                        None \<Rightarrow> Inr init
                      | Some outs \<Rightarrow> Inr (fold forEachStep outs init)))
              else Inr init)"

text \<open>The cleanup the events effect returns (lines 142-146); the handle 0 is falsy.\<close>

definition cleanup :: "nat option \<Rightarrow> world \<Rightarrow> world" where
  "cleanup timeoutId w =
     (case timeoutId of
        None \<Rightarrow> w
      | Some h \<Rightarrow> if h \<noteq> 0 then clearTimeout h w else w)"


section \<open>React's scheduling of the effects\<close>

text \<open>
  A mounted ToolPanel: its state, and the \<open>timeoutId\<close> held by the cleanup of the
  latest run of the events effect.
\<close>

record component =
  state :: panel
  timeoutId :: "nat option"

text \<open>
  One run of the events effect as React performs it when a dependency
  (\<open>events\<close>, \<open>functionAdded\<close>, \<open>sendClientEvent\<close>) has changed: the cleanup of the
  previous run, then the body; the setter calls take effect for the next render.
  The parent is taken to pass the same \<open>sendClientEvent\<close> at every render, so that
  only \<open>events\<close> and \<open>functionAdded\<close> make the effect run again.
\<close>

definition runEventsEffect ::
    "event list option \<Rightarrow> component \<times> world \<Rightarrow> js_error + component \<times> world" where
  "runEventsEffect events cw =
     (case cw of (c, w) \<Rightarrow>
        (case eventsEffect events (state c) (cleanup (timeoutId c) w) of
           Inl e \<Rightarrow> Inl e
         | Inr (ups, w', tid) \<Rightarrow>
             Inr (\<lparr>state = apply_setters ups (state c), timeoutId = tid\<rparr>, w')))"

text \<open>
  After a render in which \<open>functionAdded\<close> differs from its value \<open>before\<close> (the
  previous render's), the events effect runs again on the same log.
\<close>

definition rerunIfChanged ::
    "event list option \<Rightarrow> bool \<Rightarrow> component \<times> world \<Rightarrow> js_error + component \<times> world" where
  "rerunIfChanged events before cw =
     (if functionAdded (state (fst cw)) \<noteq> before then runEventsEffect events cw
      else Inr cw)"

text \<open>
  A render of the panel with the given \<open>isSessionActive\<close>. An exception of the render
  is caught nowhere: React unmounts the tree, and the result is the exception alone.
\<close>

definition rendered :: "bool \<Rightarrow> component \<times> world \<Rightarrow> js_error + component \<times> world" where
  "rendered isSessionActive cw =
     (case ToolPanel_render isSessionActive (state (fst cw)) of
        Inl e \<Rightarrow> Inl e
      | Inr v \<Rightarrow> Inr cw)"

definition andThen :: "js_error + 'a \<Rightarrow> ('a \<Rightarrow> js_error + 'b) \<Rightarrow> js_error + 'b" where
  "andThen r f = (case r of Inl e \<Rightarrow> Inl e | Inr x \<Rightarrow> f x)"

text \<open>
  The reaction to a new value of the \<open>events\<close> prop: the panel renders and the effect
  runs; the panel renders with the new state, and the effect runs once more if the
  first run has changed \<open>functionAdded\<close> (a second run cannot change it again),
  followed by a last render.
\<close>

definition onEventsChanged ::
    "bool \<Rightarrow> event list option \<Rightarrow> component \<times> world \<Rightarrow> js_error + component \<times> world" where
  "onEventsChanged isSessionActive events cw =
     andThen (rendered isSessionActive cw) (\<lambda>cw0.
     andThen (runEventsEffect events cw0) (\<lambda>cw1.
     andThen (rendered isSessionActive cw1) (\<lambda>cw2.
     andThen (rerunIfChanged events (functionAdded (state (fst cw))) cw2)
       (rendered isSessionActive))))"


text \<open>
  A sequence of event-log updates with \<open>isSessionActive\<close> unchanged, stopping at the
  first exception.
\<close>

fun runUpdates ::
    "bool \<Rightarrow> event list option list \<Rightarrow> component \<times> world \<Rightarrow> js_error + component \<times> world" where
  "runUpdates isSessionActive [] cw = Inr cw"
| "runUpdates isSessionActive (events # rest) cw =
     andThen (onEventsChanged isSessionActive events cw) (runUpdates isSessionActive rest)"

section \<open>Notions used to state the properties\<close>

text \<open>The \<open>n\<close> follow-up timeouts with the consecutive handles from \<open>h\<close> on.\<close>

definition followupTimers :: "nat \<Rightarrow> nat \<Rightarrow> timer list" where
  "followupTimers h n =
     map (\<lambda>i. \<lparr>handle = i, delay = 500, callback = followupCommand\<rparr>) [h..<h + n]"

text \<open>The log's last array element (\<open>events[events.length - 1]\<close>) is a \<open>session.created\<close> event.\<close>

definition lastIsSessionCreated :: "event list option \<Rightarrow> bool" where
  "lastIsSessionCreated events =
     (case events of
        None \<Rightarrow> False
      | Some evs \<Rightarrow> evs \<noteq> [] \<and> etype (last evs) = str ''session.created'')"

text \<open>The pending handles are positive, below the next handle, and pairwise different.\<close>

definition freshHandles :: "world \<Rightarrow> bool" where
  "freshHandles w \<longleftrightarrow>
     0 < nextHandle w \<and> list_all (\<lambda>t. handle t < nextHandle w) (timers w) \<and>
     distinct (map handle (timers w))"


text \<open>
  Events and entries as the Realtime API sends them, for the examples: a
  \<open>function_call\<close> entry of the palette tool with the given arguments, a \<open>message\<close>
  entry, a \<open>session.created\<close> event, a \<open>response.done\<close> event with the given
  entries, and an event of another type.
\<close>

definition paletteCall :: "js_string \<Rightarrow> output_item" where
  "paletteCall a =
     \<lparr>otype = str ''function_call'', name = Some (str ''display_color_palette''),
      arguments = Some a\<rparr>"

definition messageItem :: output_item where
  "messageItem = \<lparr>otype = str ''message'', name = None, arguments = None\<rparr>"

definition sessionCreated :: event where
  "sessionCreated = \<lparr>etype = str ''session.created'', response = None\<rparr>"

definition responseDone :: "output_item list \<Rightarrow> event" where
  "responseDone outs =
     \<lparr>etype = str ''response.done'', response = Some \<lparr>output = Some outs\<rparr>\<rparr>"

definition speechStarted :: event where
  "speechStarted = \<lparr>etype = str ''input_audio_buffer.speech_started'', response = None\<rparr>"

text \<open>A freshly mounted ToolPanel, and an environment in which nothing has happened.\<close>

definition mounted :: component where
  "mounted = \<lparr>state = initial_panel, timeoutId = None\<rparr>"

definition quiet :: world where
  "quiet = \<lparr>sent = [], timers = [], nextHandle = 1\<rparr>"







text \<open>Reading a command along a path of property names.\<close>

fun at_path :: "json \<Rightarrow> js_string list \<Rightarrow> json option" where
  "at_path v [] = Some v"
| "at_path v (k # ks) =
     (case property v k of
        None \<Rightarrow> None
      | Some v' \<Rightarrow> at_path v' ks)"

section \<open>The events effect, characterised\<close>

lemma followupTimers_0: "followupTimers h 0 = []"
  by (simp add: followupTimers_def)

lemma followupTimers_Suc:
  "followupTimers h (Suc n) =
     \<lparr>handle = h, delay = 500, callback = followupCommand\<rparr> # followupTimers (Suc h) n"
  by (simp add: followupTimers_def upt_conv_Cons)

lemma followupTimers_snoc:
  "followupTimers h (Suc n) =
     followupTimers h n @ [\<lparr>handle = h + n, delay = 500, callback = followupCommand\<rparr>]"
  by (simp add: followupTimers_def)

lemma fold_forEachStep:
  "fold forEachStep outs (ups, w, tid) =
     (ups @ map (\<lambda>x. SetFunctionCallOutput (Some x)) (filter isPaletteCall outs),
      w\<lparr>timers := timers w @ followupTimers (nextHandle w) (length (filter isPaletteCall outs)),
        nextHandle := nextHandle w + length (filter isPaletteCall outs)\<rparr>,
      if filter isPaletteCall outs = [] then tid
      else Some (nextHandle w + length (filter isPaletteCall outs) - 1))"
proof (induction outs arbitrary: ups w tid)
  case Nil
  show ?case by (simp add: followupTimers_0)
next
  case (Cons x xs)
  show ?case
  proof (cases "isPaletteCall x")
    case False
    then show ?thesis using Cons.IH [of ups w tid] by simp
  next
    case True
    then show ?thesis
      using Cons.IH [of "ups @ [SetFunctionCallOutput (Some x)]"
          "w\<lparr>timers := timers w @ [\<lparr>handle = nextHandle w, delay = 500, callback = followupCommand\<rparr>],
             nextHandle := nextHandle w + 1\<rparr>" "Some (nextHandle w)"]
      by (simp add: setTimeout_def followupTimers_Suc)
  qed
qed

lemma eventsEffect_no_log:
  "eventsEffect None p w = Inr ([], w, None)" "eventsEffect (Some []) p w = Inr ([], w, None)"
  by (simp_all add: eventsEffect_def)

lemma init_rule:
  "evs \<noteq> [] \<Longrightarrow> lastIsSessionCreated (Some evs) \<longleftrightarrow>
     etype (evs ! (length evs - Suc 0)) = str ''session.created''"
  by (simp add: lastIsSessionCreated_def last_conv_nth)

lemma eventsEffect_done:
  assumes "evs \<noteq> []" and "etype (evs ! 0) = str ''response.done''"
    and "response (evs ! 0) = Some r" and "output r = Some outs"
  shows "eventsEffect (Some evs) p w =
     Inr ((if \<not> functionAdded p \<and> lastIsSessionCreated (Some evs) then [SetFunctionAdded True] else [])
            @ map (\<lambda>x. SetFunctionCallOutput (Some x)) (filter isPaletteCall outs),
          w\<lparr>sent := sent w @ (if \<not> functionAdded p \<and> lastIsSessionCreated (Some evs)
                              then [sessionUpdate] else []),
            timers := timers w @ followupTimers (nextHandle w) (length (filter isPaletteCall outs)),
            nextHandle := nextHandle w + length (filter isPaletteCall outs)\<rparr>,
          if filter isPaletteCall outs = [] then None
          else Some (nextHandle w + length (filter isPaletteCall outs) - 1))"
  using assms
  by (simp add: eventsEffect_def Let_def fold_forEachStep sendClientEvent_def init_rule)

lemma eventsEffect_result:
  assumes "eventsEffect events p w = Inr (ups, w', tid)"
  shows "\<exists>calls.
     ups = (if \<not> functionAdded p \<and> lastIsSessionCreated events then [SetFunctionAdded True] else [])
            @ map (\<lambda>x. SetFunctionCallOutput (Some x)) calls \<and>
     w' = w\<lparr>sent := sent w @ (if \<not> functionAdded p \<and> lastIsSessionCreated events
                              then [sessionUpdate] else []),
            timers := timers w @ followupTimers (nextHandle w) (length calls),
            nextHandle := nextHandle w + length calls\<rparr> \<and>
     tid = (if calls = [] then None else Some (nextHandle w + length calls - 1))"
proof (cases events)
  case None
  with assms show ?thesis
    by (intro exI [of _ "[]"]) (simp add: eventsEffect_no_log lastIsSessionCreated_def followupTimers_0)
next
  case (Some evs)
  show ?thesis
  proof (cases "evs = []")
    case True
    with Some assms show ?thesis
      by (intro exI [of _ "[]"]) (simp add: eventsEffect_no_log lastIsSessionCreated_def followupTimers_0)
  next
    case ne: False
    show ?thesis
    proof (cases "etype (evs ! 0) = str ''response.done''")
      case False
      with ne Some assms show ?thesis
        by (intro exI [of _ "[]"])
           (auto simp: eventsEffect_def Let_def sendClientEvent_def init_rule followupTimers_0)
    next
      case True
      with ne Some assms obtain r where r: "response (evs ! 0) = Some r"
        by (auto simp: eventsEffect_def Let_def split: option.splits)
      show ?thesis
      proof (cases "output r")
        case None
        with True r ne Some assms show ?thesis
          by (intro exI [of _ "[]"])
             (auto simp: eventsEffect_def Let_def sendClientEvent_def init_rule followupTimers_0)
      next
        case (Some outs)
        from assms eventsEffect_done [OF ne True r Some, of p w] \<open>events = Some evs\<close>
        show ?thesis
          by (intro exI [of _ "filter isPaletteCall outs"]) auto
      qed
    qed
  qed
qed

section \<open>Session tuning: handleSessionUpdateSubmit\<close>

lemma trim_examples:
  "trim (str '''') = []" "trim (str ''  Be terse.  '') = str ''Be terse.''"
  by (simp_all add: trim_def str_def isWhiteSpace_def)

text \<open>
  C5. Submitted while the session is active, the handler sends one \<open>session.update\<close>
  command whose \<open>session.instructions\<close> is the trimmed instructions text, or the
  default instructions when the trimmed text is empty, and whose
  \<open>session.audio.output.voice\<close> is the selected voice; it records the time of the
  call as \<open>lastSessionUpdate\<close>. Submitting the empty text sends the default, and
  submitting "  Be terse.  " with the voice "sol" sends "Be terse." and "sol".
\<close>

theorem submit_sends_trimmed_or_default:
  "handleSessionUpdateSubmit True now p w =
     ([SetLastSessionUpdate (Some now)],
      sendClientEvent
        (JObject
          [(str ''type'', JString (str ''session.update'')),
           (str ''session'',
            JObject
             [(str ''instructions'',
               JString (if trim (instructions p) = [] then DEFAULT_INSTRUCTIONS
                        else trim (instructions p))),
              (str ''audio'',
               JObject [(str ''output'', JObject [(str ''voice'', JString (voice p))])])])])
        w) \<and>
   lastSessionUpdate (apply_setters (fst (handleSessionUpdateSubmit True now p w)) p) = Some now \<and>
   (\<exists>command. sent (snd (handleSessionUpdateSubmit True now p w)) = sent w @ [command] \<and>
      at_path command [str ''type''] = Some (JString (str ''session.update'')) \<and>
      at_path command [str ''session'', str ''instructions''] =
        Some (JString (if trim (instructions p) = [] then DEFAULT_INSTRUCTIONS
                       else trim (instructions p))) \<and>
      at_path command [str ''session'', str ''audio'', str ''output'', str ''voice''] =
        Some (JString (voice p))) \<and>
   (\<exists>command.
      sent (snd (handleSessionUpdateSubmit True now
                  (p\<lparr>instructions := str '''', voice := str ''alloy''\<rparr>) w)) = sent w @ [command] \<and>
      at_path command [str ''session'', str ''instructions''] = Some (JString DEFAULT_INSTRUCTIONS) \<and>
      at_path command [str ''session'', str ''audio'', str ''output'', str ''voice''] =
        Some (JString (str ''alloy''))) \<and>
   (\<exists>command.
      sent (snd (handleSessionUpdateSubmit True now
                  (p\<lparr>instructions := str ''  Be terse.  '', voice := str ''sol''\<rparr>) w)) = sent w @ [command] \<and>
      at_path command [str ''session'', str ''instructions''] = Some (JString (str ''Be terse.'')) \<and>
      at_path command [str ''session'', str ''audio'', str ''output'', str ''voice''] =
        Some (JString (str ''sol'')))"
proof -
  have names: "str ''session'' \<noteq> str ''type''" "str ''audio'' \<noteq> str ''instructions''"
    by (simp_all add: str_def)
  have terse: "str ''Be terse.'' \<noteq> []"
    by (simp add: str_def)
  show ?thesis
    by (simp add: handleSessionUpdateSubmit_def Let_def apply_setters_def sendClientEvent_def
        property_def names trim_examples terse)
qed

text \<open>
  C6. Submitted while no session is active, the handler sends no command and calls no
  setter: \<open>lastSessionUpdate\<close> and the rest of the state stay as they are.
\<close>

theorem inactive_submit_is_ignored:
  "handleSessionUpdateSubmit False now p w = ([], w) \<and>
   apply_setters (fst (handleSessionUpdateSubmit False now p w)) p = p \<and>
   sent (snd (handleSessionUpdateSubmit False now p w)) = sent w"
  by (simp add: handleSessionUpdateSubmit_def apply_setters_def)

section \<open>The events effect on an absent or empty log\<close>

text \<open>
  C10. For a \<open>null\<close>, \<open>undefined\<close> or empty event log the events effect returns at
  once: it calls no setter, sends no command, arms no timer and returns no cleanup,
  so the state and the environment are left as they were.
\<close>

theorem empty_log_does_nothing:
  "eventsEffect None p w = Inr ([], w, None) \<and>
   eventsEffect (Some []) p w = Inr ([], w, None) \<and>
   apply_setters [] p = p"
  by (simp add: eventsEffect_no_log apply_setters_def)

section \<open>Rendering a stored tool call\<close>

lemma parse_ocean:
  \<open>JSON_parse (str ''{"theme":"ocean","colors":["#001","#002","#003","#004","#005"]}'') =
     Inr (JObject
           [(str ''theme'', JString (str ''ocean'')),
            (str ''colors'',
             JArray [JString (str ''#001''), JString (str ''#002''), JString (str ''#003''),
                     JString (str ''#004''), JString (str ''#005'')])])\<close>
  by code_simp

lemma parse_theme_only:
  \<open>JSON_parse (str ''{"theme":"x"}'') = Inr (JObject [(str ''theme'', JString (str ''x''))])\<close>
  by code_simp

lemma parse_unclosed: \<open>JSON_parse (str ''{"theme":'') = Inl SyntaxError\<close>
  by code_simp

lemma key_names: "str ''colors'' \<noteq> str ''theme''" "str ''theme'' \<noteq> str ''colors''"
  by (simp_all add: str_def)

text \<open>
  C8. For a stored entry whose \<open>arguments\<close> is the JSON text
  \<open>{"theme":"ocean","colors":["#001","#002","#003","#004","#005"]}\<close>, FunctionCallOutput
  parses it to the theme "ocean" and the five colour strings in their original order,
  one box per colour.
\<close>

theorem ocean_palette_parses:
  assumes \<open>arguments item =
     Some (str ''{"theme":"ocean","colors":["#001","#002","#003","#004","#005"]}'')\<close>
  shows "FunctionCallOutput item =
     Inr \<lparr>theme = Some (JString (str ''ocean'')),
          colorBoxes = [JString (str ''#001''), JString (str ''#002''), JString (str ''#003''),
                        JString (str ''#004''), JString (str ''#005'')],
          pre = item\<rparr>"
  using assms by (simp add: FunctionCallOutput_def ToString_def parse_ocean property_def key_names)

text \<open>The hypothesis of C8 holds of a \<open>function_call\<close> entry with that text.\<close>

theorem ocean_palette_parses_witness:
  \<open>FunctionCallOutput
     \<lparr>otype = str ''function_call'', name = Some (str ''display_color_palette''),
      arguments = Some (str ''{"theme":"ocean","colors":["#001","#002","#003","#004","#005"]}'')\<rparr> =
     Inr \<lparr>theme = Some (JString (str ''ocean'')),
          colorBoxes = [JString (str ''#001''), JString (str ''#002''), JString (str ''#003''),
                        JString (str ''#004''), JString (str ''#005'')],
          pre = \<lparr>otype = str ''function_call'', name = Some (str ''display_color_palette''),
                 arguments = Some (str ''{"theme":"ocean","colors":["#001","#002","#003","#004","#005"]}'')\<rparr>\<rparr>\<close>
  by (rule ocean_palette_parses) simp

text \<open>
  C2, as stated, fails. The claim says that rendering a stored entry whose arguments
  lack \<open>colors\<close> does not throw and gives an error-state result. For the arguments
  \<open>{"theme":"x"}\<close> the destructured \<open>colors\<close> is \<open>undefined\<close> and \<open>colors.map\<close>
  throws a TypeError; nothing catches it, so it leaves FunctionCallOutput and the
  render of ToolPanel.
\<close>

theorem missing_colors_throws:
  \<open>FunctionCallOutput
     \<lparr>otype = str ''function_call'', name = Some (str ''display_color_palette''),
      arguments = Some (str ''{"theme":"x"}'')\<rparr> = Inl TypeError \<and>
   ToolPanel_render True
     (initial_panel\<lparr>functionCallOutput :=
        Some \<lparr>otype = str ''function_call'', name = Some (str ''display_color_palette''),
              arguments = Some (str ''{"theme":"x"}'')\<rparr>\<rparr>) = Inl TypeError\<close>
  by (simp add: ToolPanel_render_def FunctionCallOutput_def ToString_def parse_theme_only
      property_def key_names)

text \<open>
  C2, amended. FunctionCallOutput has no fallback presentation and catches nothing:
  when the arguments fail JSON parsing it throws the SyntaxError of \<open>JSON.parse\<close>,
  and when they parse to a value without \<open>colors\<close> it throws a TypeError. An
  exception of FunctionCallOutput is an exception of ToolPanel's render while the
  session is active.
\<close>

theorem malformed_arguments_throw:
  "(JSON_parse (ToString (arguments item)) = Inl e \<longrightarrow> FunctionCallOutput item = Inl SyntaxError) \<and>
   (JSON_parse (ToString (arguments item)) = Inr v \<and> property v (str ''colors'') = None \<longrightarrow>
      FunctionCallOutput item = Inl TypeError) \<and>
   (functionCallOutput p = Some item \<and> FunctionCallOutput item = Inl e \<longrightarrow>
      ToolPanel_render True p = Inl e)"
proof -
  have parse_error: "JSON_parse s = Inl e \<Longrightarrow> e = SyntaxError" for s e
    by (auto simp: JSON_parse_def split: option.splits prod.splits expect.splits)
  have a: "JSON_parse (ToString (arguments item)) = Inl e \<longrightarrow> FunctionCallOutput item = Inl SyntaxError"
    using parse_error by (auto simp: FunctionCallOutput_def)
  have b: "JSON_parse (ToString (arguments item)) = Inr v \<and> property v (str ''colors'') = None \<longrightarrow>
      FunctionCallOutput item = Inl TypeError"
    by (auto simp: FunctionCallOutput_def split: json.splits)
  have d: "functionCallOutput p = Some item \<and> FunctionCallOutput item = Inl e \<longrightarrow>
      ToolPanel_render True p = Inl e"
    by (simp add: ToolPanel_render_def)
  from a b d show ?thesis by blast
qed

text \<open>
  The hypotheses of the amended C2 hold of the truncated text \<open>{"theme":\<close> and of
  \<open>{"theme":"x"}\<close>.
\<close>

theorem malformed_arguments_throw_witness:
  \<open>JSON_parse (ToString (Some (str ''{"theme":''))) = Inl SyntaxError \<and>
   FunctionCallOutput
     \<lparr>otype = str ''function_call'', name = Some (str ''display_color_palette''),
      arguments = Some (str ''{"theme":'')\<rparr> = Inl SyntaxError \<and>
   JSON_parse (ToString (Some (str ''{"theme":"x"}''))) =
     Inr (JObject [(str ''theme'', JString (str ''x''))]) \<and>
   property (JObject [(str ''theme'', JString (str ''x''))]) (str ''colors'') = None \<and>
   FunctionCallOutput
     \<lparr>otype = str ''function_call'', name = Some (str ''display_color_palette''),
      arguments = Some (str ''{"theme":"x"}'')\<rparr> = Inl TypeError \<and>
   ToolPanel_render True
     (initial_panel\<lparr>functionCallOutput :=
        Some \<lparr>otype = str ''function_call'', name = Some (str ''display_color_palette''),
              arguments = Some (str ''{"theme":"x"}'')\<rparr>\<rparr>) = Inl TypeError\<close>
proof -
  let ?i1 = \<open>\<lparr>otype = str ''function_call'', name = Some (str ''display_color_palette''),
      arguments = Some (str ''{"theme":'')\<rparr>\<close>
  let ?i2 = \<open>\<lparr>otype = str ''function_call'', name = Some (str ''display_color_palette''),
      arguments = Some (str ''{"theme":"x"}'')\<rparr>\<close>
  let ?v = "JObject [(str ''theme'', JString (str ''x''))]"
  have p1: "JSON_parse (ToString (arguments ?i1)) = Inl SyntaxError"
    by (simp add: ToString_def parse_unclosed)
  have p2: "JSON_parse (ToString (arguments ?i2)) = Inr ?v"
    by (simp add: ToString_def parse_theme_only)
  have p3: "property ?v (str ''colors'') = None"
    by (simp add: property_def key_names)
  have r1: "FunctionCallOutput ?i1 = Inl SyntaxError"
    using malformed_arguments_throw [of ?i1 SyntaxError] p1 by blast
  have r2: "FunctionCallOutput ?i2 = Inl TypeError"
    using malformed_arguments_throw [of ?i2 TypeError ?v] p2 p3 by blast
  have r3: "ToolPanel_render True (initial_panel\<lparr>functionCallOutput := Some ?i2\<rparr>) = Inl TypeError"
    using malformed_arguments_throw [of ?i2 TypeError ?v "initial_panel\<lparr>functionCallOutput := Some ?i2\<rparr>"] r2
    by simp
  from p1 p2 p3 r1 r2 r3 show ?thesis by simp
qed

section \<open>Timers armed by the events effect\<close>

lemma followupTimers_member:
  "t \<in> set (followupTimers h n) \<longleftrightarrow>
     (\<exists>i. h \<le> i \<and> i < h + n \<and> t = \<lparr>handle = i, delay = 500, callback = followupCommand\<rparr>)"
  by (auto simp: followupTimers_def)

lemma followupTimers_handles: "map handle (followupTimers h n) = [h..<h + n]"
  by (simp add: followupTimers_def comp_def)


lemma filter_followupTimers_above:
  "filter (\<lambda>t. handle t \<noteq> h + n) (followupTimers h n) = followupTimers h n"
  by (rule filter_True) (auto simp: followupTimers_member)

lemma filter_old_timers:
  assumes "list_all (\<lambda>t. handle t < b) ts" and "b \<le> h"
  shows "filter (\<lambda>t. handle t \<noteq> h) ts = ts"
  using assms by (intro filter_True) (auto simp: list_all_iff)

lemma cancel_last_armed:
  assumes "freshHandles w" and "0 < n"
  shows "filter (\<lambda>t. handle t \<noteq> nextHandle w + n - 1)
           (timers w @ followupTimers (nextHandle w) n) =
         timers w @ followupTimers (nextHandle w) (n - 1)"
proof -
  from \<open>0 < n\<close> obtain m where n: "n = Suc m" by (cases n) auto
  have old: "filter (\<lambda>t. handle t \<noteq> nextHandle w + m) (timers w) = timers w"
    using assms(1) by (intro filter_old_timers [where b = "nextHandle w"]) (auto simp: freshHandles_def)
  show ?thesis
    by (simp add: n followupTimers_snoc old filter_followupTimers_above)
qed

lemma find_by_handle:
  assumes "distinct (map handle ts)" and "t \<in> set ts"
  shows "find (\<lambda>u. handle u = handle t) ts = Some t"
  using assms
proof (induction ts)
  case Nil
  then show ?case by simp
next
  case (Cons a ts)
  then show ?case by (auto simp: image_iff)
qed

lemma fireTimer_pending:
  assumes "distinct (map handle (timers w))" and "t \<in> set (timers w)"
  shows "sent (fireTimer (handle t) w) = sent w @ [callback t]"
    and "timers (fireTimer (handle t) w) = filter (\<lambda>u. handle u \<noteq> handle t) (timers w)"
  using find_by_handle [OF assms]
  by (simp_all add: fireTimer_def sendClientEvent_def clearTimeout_def)


lemma tool_updates_keep_functionAdded:
  "functionAdded (fold apply_setter (map (\<lambda>x. SetFunctionCallOutput (Some x)) calls) p) =
     functionAdded p"
  by (induction calls arbitrary: p) auto



section \<open>Facts about the example events\<close>

lemma example_types:
  "etype sessionCreated = str ''session.created''"
  "etype (responseDone outs) = str ''response.done''"
  "response (responseDone outs) = Some \<lparr>output = Some outs\<rparr>"
  "etype speechStarted \<noteq> str ''session.created''"
  "etype speechStarted \<noteq> str ''response.done''"
  "etype sessionCreated \<noteq> str ''response.done''"
  "etype (responseDone outs) \<noteq> str ''session.created''"
  "isPaletteCall (paletteCall a)"
  "\<not> isPaletteCall messageItem"
  by (simp_all add: sessionCreated_def responseDone_def speechStarted_def paletteCall_def
      messageItem_def isPaletteCall_def str_def)

lemma event_type_names:
  "str ''response.done'' \<noteq> str ''session.created''"
  "str ''session.created'' \<noteq> str ''response.done''"
  "str ''input_audio_buffer.speech_started'' \<noteq> str ''session.created''"
  "str ''input_audio_buffer.speech_started'' \<noteq> str ''response.done''"
  by (simp_all add: str_def)

section \<open>The follow-up timer\<close>

lemma followupCommand_fields:
  "at_path followupCommand [str ''type''] = Some (JString (str ''response.create''))"
  "at_path followupCommand [str ''response'', str ''instructions''] =
     Some (JString (str ''\<newline>                ask for feedback about the color palette - don't repeat\<newline>                the colors, just ask if they like the colors.\<newline>              ''))"
proof -
  have names: "str ''response'' \<noteq> str ''type''"
    by (simp add: str_def)
  show "at_path followupCommand [str ''type''] = Some (JString (str ''response.create''))"
    by (simp add: followupCommand_def property_def)
  show "at_path followupCommand [str ''response'', str ''instructions''] =
     Some (JString (str ''\<newline>                ask for feedback about the color palette - don't repeat\<newline>                the colors, just ask if they like the colors.\<newline>              ''))"
    by (simp add: followupCommand_def property_def names)
qed

text \<open>
  C7. Every timer the events effect arms has a delay of 500 milliseconds, and when it
  fires it sends exactly one command: the \<open>response.create\<close> whose instructions ask
  for feedback about the colour palette without repeating the colours.
\<close>

theorem followup_timer_sends_response_create:
  assumes "eventsEffect events p w = Inr (ups, w', tid)"
  shows "\<exists>n. timers w' = timers w @ followupTimers (nextHandle w) n \<and>
     (\<forall>t \<in> set (followupTimers (nextHandle w) n).
        delay t = 500 \<and> callback t = followupCommand \<and>
        (\<forall>w2. distinct (map handle (timers w2)) \<and> t \<in> set (timers w2) \<longrightarrow>
           sent (fireTimer (handle t) w2) = sent w2 @ [followupCommand])) \<and>
     at_path followupCommand [str ''type''] = Some (JString (str ''response.create'')) \<and>
     at_path followupCommand [str ''response'', str ''instructions''] =
       Some (JString (str ''\<newline>                ask for feedback about the color palette - don't repeat\<newline>                the colors, just ask if they like the colors.\<newline>              ''))"
proof -
  from eventsEffect_result [OF assms] obtain calls :: "output_item list" where
    w': "timers w' = timers w @ followupTimers (nextHandle w) (length calls)"
    by auto
  have each: "delay t = 500 \<and> callback t = followupCommand \<and>
        (\<forall>w2. distinct (map handle (timers w2)) \<and> t \<in> set (timers w2) \<longrightarrow>
           sent (fireTimer (handle t) w2) = sent w2 @ [followupCommand])"
    if "t \<in> set (followupTimers (nextHandle w) (length calls))" for t
  proof -
    from that have t: "delay t = 500" "callback t = followupCommand"
      by (auto simp: followupTimers_member)
    with fireTimer_pending(1) [of _ t] show ?thesis by auto
  qed
  from w' each followupCommand_fields show ?thesis by blast
qed

text \<open>
  The hypothesis of C7 holds of a run on a \<open>response.done\<close> with one palette call;
  its timer, fired, sends the follow-up command.
\<close>

theorem followup_timer_sends_response_create_witness:
  \<open>eventsEffect (Some [responseDone [paletteCall (str ''{}'')]]) initial_panel quiet =
     Inr ([SetFunctionCallOutput (Some (paletteCall (str ''{}'')))],
          \<lparr>sent = [], timers = [\<lparr>handle = 1, delay = 500, callback = followupCommand\<rparr>],
           nextHandle = 2\<rparr>,
          Some 1) \<and>
   (\<exists>n. timers \<lparr>sent = [], timers = [\<lparr>handle = 1, delay = 500, callback = followupCommand\<rparr>],
                 nextHandle = 2\<rparr> = timers quiet @ followupTimers (nextHandle quiet) n) \<and>
   sent (fireTimer 1 \<lparr>sent = [], timers = [\<lparr>handle = 1, delay = 500, callback = followupCommand\<rparr>],
                      nextHandle = 2\<rparr>) = [followupCommand]\<close>
proof -
  let ?w' = "\<lparr>sent = [], timers = [\<lparr>handle = 1, delay = 500, callback = followupCommand\<rparr>],
           nextHandle = 2\<rparr>"
  have run: \<open>eventsEffect (Some [responseDone [paletteCall (str ''{}'')]]) initial_panel quiet =
     Inr ([SetFunctionCallOutput (Some (paletteCall (str ''{}'')))], ?w', Some 1)\<close>
    using eventsEffect_done [of "[responseDone [paletteCall (str ''{}'')]]"
        "\<lparr>output = Some [paletteCall (str ''{}'')]\<rparr>" "[paletteCall (str ''{}'')]" initial_panel quiet]
    by (simp add: example_types event_type_names initial_panel_def quiet_def followupTimers_def
        lastIsSessionCreated_def)
  from followup_timer_sends_response_create [OF run]
  have "\<exists>n. timers ?w' = timers quiet @ followupTimers (nextHandle quiet) n"
    by blast
  moreover have "sent (fireTimer 1 ?w') = [followupCommand]"
    by (simp add: fireTimer_def sendClientEvent_def clearTimeout_def)
  ultimately show ?thesis using run by simp
qed

section \<open>The cleanup of the events effect\<close>

lemma cleanup_fields:
  "sent (cleanup tid w) = sent w" "nextHandle (cleanup tid w) = nextHandle w"
  by (simp_all add: cleanup_def clearTimeout_def split: option.splits)

lemma distinct_with_followups:
  assumes "freshHandles w"
  shows "distinct (map handle (timers w @ followupTimers (nextHandle w) k))"
  using assms
  by (auto simp: freshHandles_def followupTimers_handles list_all_iff)

text \<open>
  C9. A run of the events effect keeps one handle for its cleanup, that of the timer
  armed last. After a run on a \<open>response.done\<close> with \<open>n > 0\<close> palette calls, the
  cleanup cancels that one timer and leaves the \<open>n - 1\<close> armed before it pending, and
  each of those still sends its follow-up when it fires. React runs the cleanup
  before the next run of the effect, whatever the new log is and whether or not the
  session has ended: after the next run the last-armed timer is gone and the earlier
  ones are still pending.
\<close>

theorem cleanup_cancels_only_last_armed:
  assumes "freshHandles w"
    and "evs \<noteq> []" and "etype (evs ! 0) = str ''response.done''"
    and "response (evs ! 0) = Some r" and "output r = Some outs"
    and "n = length (filter isPaletteCall outs)" and "0 < n"
  shows "\<exists>ups w'.
     eventsEffect (Some evs) p w = Inr (ups, w', Some (nextHandle w + n - 1)) \<and>
     timers w' = timers w @ followupTimers (nextHandle w) n \<and>
     timers (cleanup (Some (nextHandle w + n - 1)) w') =
       timers w @ followupTimers (nextHandle w) (n - 1) \<and>
     (\<forall>events2 c2 w2.
        runEventsEffect events2
          (\<lparr>state = apply_setters ups p, timeoutId = Some (nextHandle w + n - 1)\<rparr>, w') = Inr (c2, w2) \<longrightarrow>
        (\<exists>k. timers w2 =
           timers w @ followupTimers (nextHandle w) (n - 1) @ followupTimers (nextHandle w + n) k)) \<and>
     (\<forall>t \<in> set (followupTimers (nextHandle w) (n - 1)).
        sent (fireTimer (handle t) (cleanup (Some (nextHandle w + n - 1)) w')) =
          sent w' @ [followupCommand])"
proof -
  let ?h = "nextHandle w + n - 1"
  let ?kept = "timers w @ followupTimers (nextHandle w) (n - 1)"
  from assms(6,7) have calls: "filter isPaletteCall outs \<noteq> []" by auto
  from eventsEffect_done [OF assms(2-5), of p w] calls assms(6)
  obtain ups w' where
    run: "eventsEffect (Some evs) p w = Inr (ups, w', Some ?h)" and
    armed: "timers w' = timers w @ followupTimers (nextHandle w) n" and
    next': "nextHandle w' = nextHandle w + n"
    by simp
  from assms(1,7) have pos: "?h \<noteq> 0"
    by (simp add: freshHandles_def)
  have cancelled: "timers (cleanup (Some ?h) w') = ?kept"
    using pos armed cancel_last_armed [OF assms(1,7)]
    by (simp add: cleanup_def clearTimeout_def)
  have later: "\<exists>k. timers w2 = timers w @ followupTimers (nextHandle w) (n - 1) @
                        followupTimers (nextHandle w + n) k"
    if "runEventsEffect events2 (\<lparr>state = apply_setters ups p, timeoutId = Some ?h\<rparr>, w') = Inr (c2, w2)"
    for events2 c2 w2
  proof -
    from that obtain ups2 tid2 where
      "eventsEffect events2 (apply_setters ups p) (cleanup (Some ?h) w') = Inr (ups2, w2, tid2)"
      by (auto simp: runEventsEffect_def split: sum.splits)
    from eventsEffect_result [OF this] obtain calls2 :: "output_item list" where
      "timers w2 = timers (cleanup (Some ?h) w') @
         followupTimers (nextHandle (cleanup (Some ?h) w')) (length calls2)"
      by auto
    with cancelled next' show ?thesis
      by (auto simp: cleanup_fields)
  qed
  have fired: "sent (fireTimer (handle t) (cleanup (Some ?h) w')) = sent w' @ [followupCommand]"
    if "t \<in> set (followupTimers (nextHandle w) (n - 1))" for t
  proof -
    from that have cb: "callback t = followupCommand"
      by (auto simp: followupTimers_member)
    have "distinct (map handle (timers (cleanup (Some ?h) w')))"
      using distinct_with_followups [OF assms(1)] by (simp only: cancelled)
    moreover from that have "t \<in> set (timers (cleanup (Some ?h) w'))"
      unfolding cancelled by simp
    ultimately show ?thesis
      using fireTimer_pending(1) [of "cleanup (Some ?h) w'" t] cb
      by (simp add: cleanup_fields)
  qed
  from run armed cancelled later fired show ?thesis by blast
qed

text \<open>
  The hypotheses of C9 hold of a run on a \<open>response.done\<close> with two palette calls:
  the cleanup cancels timer 2, and timer 1 fires.
\<close>

theorem cleanup_cancels_only_last_armed_witness:
  \<open>freshHandles quiet \<and>
   eventsEffect (Some [responseDone [paletteCall (str ''{}''), paletteCall (str ''[]'')]])
     initial_panel quiet =
     Inr ([SetFunctionCallOutput (Some (paletteCall (str ''{}''))),
           SetFunctionCallOutput (Some (paletteCall (str ''[]'')))],
          \<lparr>sent = [], timers = [\<lparr>handle = 1, delay = 500, callback = followupCommand\<rparr>,
               \<lparr>handle = 2, delay = 500, callback = followupCommand\<rparr>], nextHandle = 3\<rparr>, Some 2) \<and>
   timers (cleanup (Some 2)
     \<lparr>sent = [], timers = [\<lparr>handle = 1, delay = 500, callback = followupCommand\<rparr>,
               \<lparr>handle = 2, delay = 500, callback = followupCommand\<rparr>], nextHandle = 3\<rparr>) =
     [\<lparr>handle = 1, delay = 500, callback = followupCommand\<rparr>] \<and>
   sent (fireTimer 1 (cleanup (Some 2) \<lparr>sent = [], timers = [\<lparr>handle = 1, delay = 500, callback = followupCommand\<rparr>,
               \<lparr>handle = 2, delay = 500, callback = followupCommand\<rparr>], nextHandle = 3\<rparr>)) =
     [followupCommand]\<close>
proof -
  let ?outs = \<open>[paletteCall (str ''{}''), paletteCall (str ''[]'')]\<close>
  let ?evs = "[responseDone ?outs]"
  have fresh: "freshHandles quiet"
    by (simp add: freshHandles_def quiet_def)
  have n: "2 = length (filter isPaletteCall ?outs)"
    by (simp add: example_types)
  have h1: "?evs \<noteq> []" by simp
  have h2: "etype (?evs ! 0) = str ''response.done''" by (simp add: example_types)
  have h3: "response (?evs ! 0) = Some \<lparr>output = Some ?outs\<rparr>" by (simp add: example_types)
  have h4: "output \<lparr>output = Some ?outs\<rparr> = Some ?outs" by simp
  have pos: "0 < (2::nat)" by simp
  have q: "nextHandle quiet + 2 - 1 = 2" "nextHandle quiet = 1" "timers quiet = []"
    "(2::nat) - 1 = 1"
    by (simp_all add: quiet_def)
  from cleanup_cancels_only_last_armed [OF fresh h1 h2 h3 h4 n pos, of initial_panel]
  obtain ups w' where
    run: "eventsEffect (Some ?evs) initial_panel quiet = Inr (ups, w', Some (nextHandle quiet + 2 - 1))" and
    cancelled: "timers (cleanup (Some (nextHandle quiet + 2 - 1)) w') =
       timers quiet @ followupTimers (nextHandle quiet) (2 - 1)" and
    fired: "\<forall>t \<in> set (followupTimers (nextHandle quiet) (2 - 1)).
        sent (fireTimer (handle t) (cleanup (Some (nextHandle quiet + 2 - 1)) w')) =
          sent w' @ [followupCommand]"
    by blast
  have direct: "eventsEffect (Some ?evs) initial_panel quiet =
     Inr ([SetFunctionCallOutput (Some (paletteCall (str ''{}''))),
           SetFunctionCallOutput (Some (paletteCall (str ''[]'')))],
          \<lparr>sent = [], timers = [\<lparr>handle = 1, delay = 500, callback = followupCommand\<rparr>,
               \<lparr>handle = 2, delay = 500, callback = followupCommand\<rparr>], nextHandle = 3\<rparr>, Some 2)"
    using eventsEffect_done [of ?evs "\<lparr>output = Some ?outs\<rparr>" ?outs initial_panel quiet]
    by (simp add: example_types event_type_names initial_panel_def quiet_def lastIsSessionCreated_def
        followupTimers_def)
  note run' = run [unfolded q(1)]
  from run' direct have w': "w' = \<lparr>sent = [], timers = [\<lparr>handle = 1, delay = 500, callback = followupCommand\<rparr>,
               \<lparr>handle = 2, delay = 500, callback = followupCommand\<rparr>], nextHandle = 3\<rparr>"
    by simp
  have c2: "timers (cleanup (Some 2) w') = followupTimers 1 1"
    using cancelled [unfolded q(1)] by (simp only: q append_Nil)
  have one: "\<lparr>handle = 1, delay = 500, callback = followupCommand\<rparr> \<in> set (followupTimers 1 1)"
    by (simp add: followupTimers_def)
  from fired [unfolded q(1)] have "\<forall>t \<in> set (followupTimers 1 1).
        sent (fireTimer (handle t) (cleanup (Some 2) w')) = sent w' @ [followupCommand]"
    by (simp only: q)
  with one have "sent (fireTimer (handle \<lparr>handle = 1, delay = 500, callback = followupCommand\<rparr>)
        (cleanup (Some 2) w')) = sent w' @ [followupCommand]"
    by blast
  then have f1: "sent (fireTimer 1 (cleanup (Some 2) w')) = sent w' @ [followupCommand]"
    by simp
  from fresh direct c2 f1 show ?thesis
    by (simp add: w' followupTimers_def)
qed

section \<open>Renders and runs of an update\<close>



lemma rendered_Inr: "rendered a cw = Inr cw' \<Longrightarrow> cw' = cw"
  by (auto simp: rendered_def split: sum.splits)

lemma rendered_inactive: "rendered False cw = Inr cw"
  by (simp add: rendered_def ToolPanel_render_def)

lemma rendered_none: "functionCallOutput (state (fst cw)) = None \<Longrightarrow> rendered a cw = Inr cw"
  by (simp add: rendered_def ToolPanel_render_def)


lemma onEventsChanged_runs:
  assumes "onEventsChanged a events (c, w) = Inr (c', w')"
  shows "\<exists>c1 w1. runEventsEffect events (c, w) = Inr (c1, w1) \<and>
           rerunIfChanged events (functionAdded (state c)) (c1, w1) = Inr (c', w')"
proof -
  from assms obtain cw0 cw1 cw2 cw3 where
    r0: "rendered a (c, w) = Inr cw0" and
    e1: "runEventsEffect events cw0 = Inr cw1" and
    r1: "rendered a cw1 = Inr cw2" and
    e2: "rerunIfChanged events (functionAdded (state c)) cw2 = Inr cw3" and
    r2: "rendered a cw3 = Inr (c', w')"
    by (auto simp: onEventsChanged_def andThen_def split: sum.splits)
  from rendered_Inr [OF r0] rendered_Inr [OF r1] rendered_Inr [OF r2] e1 e2
  show ?thesis by (cases cw1) auto
qed

lemma onEventsChanged_eval:
  assumes "rendered a cw = Inr cw" and "runEventsEffect events cw = Inr cw1"
    and "rendered a cw1 = Inr cw1"
    and "rerunIfChanged events (functionAdded (state (fst cw))) cw1 = Inr cw2"
    and "rendered a cw2 = Inr cw2"
  shows "onEventsChanged a events cw = Inr cw2"
  using assms by (simp add: onEventsChanged_def andThen_def)

section \<open>The initialization rule over a sequence of log updates\<close>

lemma functionAdded_after_setters:
  "functionAdded (apply_setters ((if b then [SetFunctionAdded True] else []) @
       map (\<lambda>x. SetFunctionCallOutput (Some x)) calls) p) = (b \<or> functionAdded p)"
  by (simp add: apply_setters_def tool_updates_keep_functionAdded)

lemma runEventsEffect_registration:
  assumes "runEventsEffect events (c, w) = Inr (c', w')"
  shows "sent w' = sent w @ (if \<not> functionAdded (state c) \<and> lastIsSessionCreated events
                             then [sessionUpdate] else [])"
    and "functionAdded (state c') \<longleftrightarrow> functionAdded (state c) \<or> lastIsSessionCreated events"
proof -
  from assms obtain ups tid where
    run: "eventsEffect events (state c) (cleanup (timeoutId c) w) = Inr (ups, w', tid)" and
    c': "c' = \<lparr>state = apply_setters ups (state c), timeoutId = tid\<rparr>"
    by (auto simp: runEventsEffect_def split: sum.splits)
  from eventsEffect_result [OF run] obtain calls :: "output_item list" where
    ups: "ups = (if \<not> functionAdded (state c) \<and> lastIsSessionCreated events
                 then [SetFunctionAdded True] else [])
              @ map (\<lambda>x. SetFunctionCallOutput (Some x)) calls" and
    w': "sent w' = sent (cleanup (timeoutId c) w) @
           (if \<not> functionAdded (state c) \<and> lastIsSessionCreated events
            then [sessionUpdate] else [])"
    by auto
  from w' show "sent w' = sent w @ (if \<not> functionAdded (state c) \<and> lastIsSessionCreated events
                             then [sessionUpdate] else [])"
    by (simp add: cleanup_fields)
  show "functionAdded (state c') \<longleftrightarrow> functionAdded (state c) \<or> lastIsSessionCreated events"
    unfolding c' ups by (auto simp: functionAdded_after_setters)
qed

lemma onEventsChanged_registration:
  assumes "onEventsChanged a events (c, w) = Inr (c', w')"
  shows "sent w' = sent w @ (if \<not> functionAdded (state c) \<and> lastIsSessionCreated events
                             then [sessionUpdate] else [])"
    and "functionAdded (state c') \<longleftrightarrow> functionAdded (state c) \<or> lastIsSessionCreated events"
proof -
  from onEventsChanged_runs [OF assms] obtain c1 w1 where
    first: "runEventsEffect events (c, w) = Inr (c1, w1)" and
    second: "rerunIfChanged events (functionAdded (state c)) (c1, w1) = Inr (c', w')"
    by blast
  note r1 = runEventsEffect_registration [OF first]
  show "sent w' = sent w @ (if \<not> functionAdded (state c) \<and> lastIsSessionCreated events
                             then [sessionUpdate] else [])"
  proof (cases "functionAdded (state c1) = functionAdded (state c)")
    case True
    with second r1 show ?thesis by (simp add: rerunIfChanged_def)
  next
    case False
    with second have "runEventsEffect events (c1, w1) = Inr (c', w')"
      by (simp add: rerunIfChanged_def)
    from runEventsEffect_registration(1) [OF this] r1 False show ?thesis by auto
  qed
  show "functionAdded (state c') \<longleftrightarrow> functionAdded (state c) \<or> lastIsSessionCreated events"
  proof (cases "functionAdded (state c1) = functionAdded (state c)")
    case True
    with second r1 show ?thesis by (simp add: rerunIfChanged_def)
  next
    case False
    with second have "runEventsEffect events (c1, w1) = Inr (c', w')"
      by (simp add: rerunIfChanged_def)
    from runEventsEffect_registration(2) [OF this] r1 False show ?thesis by auto
  qed
qed

lemma runUpdates_registration:
  assumes "runUpdates a logs (c, w) = Inr (c', w')"
  shows "sent w' = sent w @ (if \<not> functionAdded (state c) \<and> (\<exists>events \<in> set logs. lastIsSessionCreated events)
                             then [sessionUpdate] else []) \<and>
         (functionAdded (state c') \<longleftrightarrow>
            functionAdded (state c) \<or> (\<exists>events \<in> set logs. lastIsSessionCreated events))"
  using assms
proof (induction logs arbitrary: c w)
  case Nil
  then show ?case by simp
next
  case (Cons events rest)
  from Cons.prems obtain c1 w1 where
    step: "onEventsChanged a events (c, w) = Inr (c1, w1)" and
    more: "runUpdates a rest (c1, w1) = Inr (c', w')"
    by (auto simp: andThen_def split: sum.splits)
  note s = onEventsChanged_registration [OF step]
  note r = Cons.IH [OF more]
  show ?case
  proof (cases "functionAdded (state c)")
    case True
    with s r show ?thesis by simp
  next
    case False
    show ?thesis
    proof (cases "lastIsSessionCreated events")
      case True
      with False s r show ?thesis by simp
    next
      case notlast: False
      with False s r show ?thesis by simp
    qed
  qed
qed

lemma sessionUpdate_fields:
  "at_path sessionUpdate [str ''type''] = Some (JString (str ''session.update''))"
  "at_path sessionUpdate [str ''session'', str ''tool_choice''] = Some (JString (str ''auto''))"
  "\<exists>tool. at_path sessionUpdate [str ''session'', str ''tools''] = Some (JArray [tool]) \<and>
      at_path tool [str ''name''] = Some (JString (str ''display_color_palette''))"
proof -
  have names: "str ''session'' \<noteq> str ''type''" "str ''tools'' \<noteq> str ''type''"
    "str ''tool_choice'' \<noteq> str ''type''" "str ''tool_choice'' \<noteq> str ''tools''"
    "str ''name'' \<noteq> str ''type''"
    by (simp_all add: str_def)
  show "at_path sessionUpdate [str ''type''] = Some (JString (str ''session.update''))"
    by (simp add: sessionUpdate_def property_def)
  show "at_path sessionUpdate [str ''session'', str ''tool_choice''] = Some (JString (str ''auto''))"
    by (simp add: sessionUpdate_def property_def names)
  show "\<exists>tool. at_path sessionUpdate [str ''session'', str ''tools''] = Some (JArray [tool]) \<and>
      at_path tool [str ''name''] = Some (JString (str ''display_color_palette''))"
    by (simp add: sessionUpdate_def property_def names)
qed

text \<open>
  C3, as stated, fails. The claim says that the tool registration is sent exactly once
  whenever \<open>session.created\<close> occurs exactly once in the updates and \<open>functionAdded\<close>
  starts false. The rule looks only at the last array element of the log. In the two
  updates below \<open>session.created\<close> arrives once, as the newest entry of a log that
  already holds an older event; the last element is never \<open>session.created\<close>, and no
  command is sent.
\<close>

theorem registration_missed_when_created_is_not_last:
  "count_list (map etype [sessionCreated, speechStarted]) (str ''session.created'') = 1 \<and>
   \<not> functionAdded (state mounted) \<and>
   runUpdates True [Some [speechStarted], Some [sessionCreated, speechStarted]] (mounted, quiet) =
     Inr (mounted, quiet) \<and>
   sent quiet = []"
proof -
  have e: "eventsEffect (Some [speechStarted]) initial_panel quiet = Inr ([], quiet, None)"
    "eventsEffect (Some [sessionCreated, speechStarted]) initial_panel quiet = Inr ([], quiet, None)"
    by (simp_all add: eventsEffect_def Let_def example_types event_type_names initial_panel_def)
  have r: "runEventsEffect (Some [speechStarted]) (mounted, quiet) = Inr (mounted, quiet)"
    "runEventsEffect (Some [sessionCreated, speechStarted]) (mounted, quiet) = Inr (mounted, quiet)"
    by (simp_all add: runEventsEffect_def mounted_def cleanup_def e apply_setters_def)
  have shown: "rendered True (mounted, quiet) = Inr (mounted, quiet)"
    by (simp add: rendered_none mounted_def initial_panel_def)
  have u: "onEventsChanged True (Some [speechStarted]) (mounted, quiet) = Inr (mounted, quiet)"
    "onEventsChanged True (Some [sessionCreated, speechStarted]) (mounted, quiet) = Inr (mounted, quiet)"
    by (simp_all add: onEventsChanged_def andThen_def rerunIfChanged_def r shown)
  have "runUpdates True [Some [speechStarted], Some [sessionCreated, speechStarted]] (mounted, quiet) =
     Inr (mounted, quiet)"
    by (simp add: andThen_def u)
  moreover have "count_list (map etype [sessionCreated, speechStarted]) (str ''session.created'') = 1"
    by (simp add: example_types)
  moreover have "\<not> functionAdded (state mounted)" "sent quiet = []"
    by (simp_all add: mounted_def initial_panel_def quiet_def)
  ultimately show ?thesis by simp
qed

text \<open>
  C3, amended. Over any sequence of log updates in which \<open>functionAdded\<close> starts
  false, the tool registration (the \<open>session.update\<close> command carrying the
  \<open>display_color_palette\<close> tool and \<open>tool_choice\<close> "auto") is sent exactly once if
  some update's log has a \<open>session.created\<close> event as its last array element
  (\<open>events[events.length - 1]\<close>), however many events arrive after it, and is not
  sent otherwise. Nothing else is sent by the updates.
\<close>

theorem registration_once_when_last_is_created:
  assumes "\<not> functionAdded (state c)" and "runUpdates isSessionActive logs (c, w) = Inr (c', w')"
  shows "((\<exists>events \<in> set logs. lastIsSessionCreated events) \<longrightarrow> sent w' = sent w @ [sessionUpdate]) \<and>
     (\<not> (\<exists>events \<in> set logs. lastIsSessionCreated events) \<longrightarrow> sent w' = sent w) \<and>
     at_path sessionUpdate [str ''type''] = Some (JString (str ''session.update'')) \<and>
     at_path sessionUpdate [str ''session'', str ''tool_choice''] = Some (JString (str ''auto'')) \<and>
     (\<exists>tool. at_path sessionUpdate [str ''session'', str ''tools''] = Some (JArray [tool]) \<and>
        at_path tool [str ''name''] = Some (JString (str ''display_color_palette'')))"
  using runUpdates_registration [OF assms(2)] assms(1) sessionUpdate_fields
  by simp

text \<open>
  The hypotheses of the amended C3 hold of a mounted panel: three updates of a log that
  ends in \<open>session.created\<close> send the registration once, and the two updates of the
  counterexample send nothing.
\<close>

theorem registration_once_when_last_is_created_witness:
  "\<not> functionAdded (state mounted) \<and>
   (\<exists>c' w'. runUpdates True [Some [sessionCreated], Some [speechStarted, sessionCreated],
                        Some [responseDone [], speechStarted, sessionCreated]] (mounted, quiet) = Inr (c', w') \<and>
      sent w' = sent quiet @ [sessionUpdate]) \<and>
   (\<exists>c' w'. runUpdates True [Some [speechStarted], Some [sessionCreated, speechStarted]] (mounted, quiet) = Inr (c', w') \<and>
      sent w' = sent quiet)"
proof -
  let ?logs = "[Some [sessionCreated], Some [speechStarted, sessionCreated],
                Some [responseDone [], speechStarted, sessionCreated]]"
  let ?logs2 = "[Some [speechStarted], Some [sessionCreated, speechStarted]]"
  have start: "\<not> functionAdded (state mounted)"
    by (simp add: mounted_def initial_panel_def)
  have ok: "\<exists>c' w'. runEventsEffect events (c, w) = Inr (c', w') \<and>
              functionCallOutput (state c') = functionCallOutput (state c)"
    if "events \<in> set (?logs @ ?logs2)" for events c w
    using that
    by (auto simp: runEventsEffect_def eventsEffect_def Let_def example_types event_type_names
        apply_setters_def split: sum.splits if_splits)
  have ok2: "\<exists>c' w'. onEventsChanged True events (c, w) = Inr (c', w') \<and>
               functionCallOutput (state c') = None"
    if "events \<in> set (?logs @ ?logs2)" and none: "functionCallOutput (state c) = None"
    for events c w
  proof -
    from ok [OF that(1)] none obtain c1 w1 where
      e1: "runEventsEffect events (c, w) = Inr (c1, w1)" and n1: "functionCallOutput (state c1) = None"
      by fastforce
    from ok [OF that(1)] n1 obtain c2 w2 where
      e2: "runEventsEffect events (c1, w1) = Inr (c2, w2)" and n2: "functionCallOutput (state c2) = None"
      by fastforce
    show ?thesis
    proof (cases "functionAdded (state c1) = functionAdded (state c)")
      case True
      then have "rerunIfChanged events (functionAdded (state (fst (c, w)))) (c1, w1) = Inr (c1, w1)"
        by (simp add: rerunIfChanged_def)
      from onEventsChanged_eval [OF _ e1 _ this] none n1 show ?thesis
        by (auto simp: rendered_none)
    next
      case False
      then have "rerunIfChanged events (functionAdded (state (fst (c, w)))) (c1, w1) = Inr (c2, w2)"
        by (simp add: rerunIfChanged_def e2)
      from onEventsChanged_eval [OF _ e1 _ this] none n1 n2 show ?thesis
        by (auto simp: rendered_none)
    qed
  qed
  have none0: "functionCallOutput (state mounted) = None"
    by (simp add: mounted_def initial_panel_def)
  obtain c1 w1 where s1: "onEventsChanged True (Some [sessionCreated]) (mounted, quiet) = Inr (c1, w1)"
    and n1: "functionCallOutput (state c1) = None"
    using ok2 [of "Some [sessionCreated]" mounted quiet] none0 by auto
  obtain c2 w2 where s2: "onEventsChanged True (Some [speechStarted, sessionCreated]) (c1, w1) = Inr (c2, w2)"
    and n2: "functionCallOutput (state c2) = None"
    using ok2 [of "Some [speechStarted, sessionCreated]" c1 w1] n1 by auto
  obtain c3 w3 where s3: "onEventsChanged True (Some [responseDone [], speechStarted, sessionCreated]) (c2, w2) = Inr (c3, w3)"
    using ok2 [of "Some [responseDone [], speechStarted, sessionCreated]" c2 w2] n2 by auto
  have run: "runUpdates True ?logs (mounted, quiet) = Inr (c3, w3)"
    by (simp add: andThen_def s1 s2 s3)
  have last1: "\<exists>events \<in> set ?logs. lastIsSessionCreated events"
    by (simp add: lastIsSessionCreated_def example_types)
  obtain d1 v1 where t1: "onEventsChanged True (Some [speechStarted]) (mounted, quiet) = Inr (d1, v1)"
    and m1: "functionCallOutput (state d1) = None"
    using ok2 [of "Some [speechStarted]" mounted quiet] none0 by auto
  obtain d2 v2 where t2: "onEventsChanged True (Some [sessionCreated, speechStarted]) (d1, v1) = Inr (d2, v2)"
    using ok2 [of "Some [sessionCreated, speechStarted]" d1 v1] m1 by auto
  have run2: "runUpdates True ?logs2 (mounted, quiet) = Inr (d2, v2)"
    by (simp add: andThen_def t1 t2)
  have last2: "\<not> (\<exists>events \<in> set ?logs2. lastIsSessionCreated events)"
    by (simp add: lastIsSessionCreated_def example_types)
  from registration_once_when_last_is_created [OF start run] last1
  have a: "sent w3 = sent quiet @ [sessionUpdate]" by blast
  from registration_once_when_last_is_created [OF start run2] last2
  have b: "sent v2 = sent quiet" by blast
  from start run a run2 b show ?thesis by blast
qed

section \<open>Session teardown\<close>













section \<open>The tool-completion rule\<close>






end
